theory Spec2Isabelle
  imports Complex_Main "HOL-Library.Word"
begin

section \<open>JavaScript values and exceptions\<close>

text \<open>
  The three programs (the browser client and the two variants of the signalling server)
  exchange JSON records.  A value that \<^verbatim>\<open>JSON.parse\<close> can return, or that a property
  read can produce, is a \<open>jsval\<close>.  Numbers are rationals: every number the programs
  compare is a byte count or comes from JSON text.  An object is the association list of
  its properties; the first binding of a key is its value.
\<close>

datatype exn = SyntaxError | TypeError | NetworkError | Error string

datatype jsval =
    JUndefined
  | JNull
  | JBool bool
  | JNum rat
  | JStr string
  | JArr "jsval list"
  | JObj "(string \<times> jsval) list"

text \<open>The truth value that \<^verbatim>\<open>!v\<close> and \<^verbatim>\<open>if (v)\<close> test.\<close>

fun truthy :: "jsval \<Rightarrow> bool" where
  "truthy JUndefined = False"
| "truthy JNull = False"
| "truthy (JBool b) = b"
| "truthy (JNum r) = (r \<noteq> 0)"
| "truthy (JStr s) = (s \<noteq> [])"
| "truthy (JArr vs) = True"
| "truthy (JObj kvs) = True"

text \<open>
  The property read \<^verbatim>\<open>v.k\<close>, for the keys the programs read (\<^verbatim>\<open>type\<close>, \<^verbatim>\<open>offer\<close>,
  \<^verbatim>\<open>answer\<close>, \<^verbatim>\<open>candidate\<close>, \<^verbatim>\<open>token\<close>, \<^verbatim>\<open>id\<close>, \<^verbatim>\<open>name\<close>, \<^verbatim>\<open>size\<close>,
  \<^verbatim>\<open>fileType\<close>): reading from \<^verbatim>\<open>null\<close> or \<^verbatim>\<open>undefined\<close> raises a TypeError, an
  object yields the bound value or \<^verbatim>\<open>undefined\<close>, and no primitive or array has one of
  these keys.
\<close>

fun get_prop :: "jsval \<Rightarrow> string \<Rightarrow> exn + jsval" where
  "get_prop JUndefined k = Inl TypeError"
| "get_prop JNull k = Inl TypeError"
| "get_prop (JObj kvs) k = Inr (case map_of kvs k of None \<Rightarrow> JUndefined | Some v \<Rightarrow> v)"
| "get_prop v k = Inr JUndefined"

text \<open>
  The functions of the platform that the programs call but do not define are parameters
  of the model: \<^verbatim>\<open>JSON.parse\<close> (which raises on text that is not JSON),
  \<^verbatim>\<open>JSON.stringify\<close>, the conversion of a value to a string in a template literal, and
  \<^verbatim>\<open>new URL(text, location.origin).href\<close> (\<open>None\<close> when the constructor raises).
\<close>

record platform =
  JSON_parse :: "string \<Rightarrow> exn + jsval"
  JSON_stringify :: "jsval \<Rightarrow> string"
  ToString :: "jsval \<Rightarrow> string"
  URL_href :: "string \<Rightarrow> string option"


section \<open>Server: the token store\<close>

text \<open>
  \<^verbatim>\<open>const tokens = new Map()\<close> of both server variants (the file whose header reads
  ``final stable version for one-time tokens + reveal flow'' and the one ``hardened for
  Render''): identifier to stored token.  The three routes are the same in both.
\<close>

type_synonym tokens = "string \<rightharpoonup> jsval"

datatype page = ExpiredPage | RevealPage string

datatype response =
    Json nat jsval
  | Html nat page
  | Uncaught exn

text \<open>
  \<^verbatim>\<open>app.post('/store')\<close>.  \<open>body\<close> is \<^verbatim>\<open>req.body\<close>, \<open>uuid\<close> the result of
  \<^verbatim>\<open>uuidv4()\<close>.  The route also sets the timer whose callback is \<open>ttl_callback\<close>.
\<close>

definition store_route :: "tokens \<Rightarrow> jsval \<Rightarrow> string \<Rightarrow> response \<times> tokens" where
  "store_route tokens body uuid =
     (case get_prop body ''token'' of
        Inl e \<Rightarrow> (Uncaught e, tokens)
      | Inr token \<Rightarrow>
          if \<not> truthy token then (Json 400 (JObj [(''error'', JStr ''Missing token'')]), tokens)
          else (Json 200 (JObj [(''id'', JStr uuid)]), tokens(uuid \<mapsto> token)))"

text \<open>\<^verbatim>\<open>setTimeout(() => tokens.delete(id), TOKEN_TTL)\<close>: the callback, and the delay in ms.\<close>

definition TOKEN_TTL :: nat where
  "TOKEN_TTL = 10 * 60 * 1000"

definition ttl_callback :: "tokens \<Rightarrow> string \<Rightarrow> tokens" where
  "ttl_callback tokens tid = tokens(tid := None)"

text \<open>\<^verbatim>\<open>app.get('/t/:id')\<close>: the reveal page, or the 404 page.\<close>

definition t_route :: "tokens \<Rightarrow> string \<Rightarrow> response \<times> tokens" where
  "t_route tokens tid =
     (case tokens tid of
        None \<Rightarrow> (Html 404 ExpiredPage, tokens)
      | Some token \<Rightarrow>
          if \<not> truthy token then (Html 404 ExpiredPage, tokens)
          else (Html 200 (RevealPage tid), tokens))"

text \<open>\<^verbatim>\<open>app.get('/consume/:id')\<close>.\<close>

definition consume_route :: "tokens \<Rightarrow> string \<Rightarrow> response \<times> tokens" where
  "consume_route tokens tid =
     (case tokens tid of
        None \<Rightarrow> (Json 200 (JObj [(''error'', JStr ''expired'')]), tokens)
      | Some token \<Rightarrow>
          if \<not> truthy token then (Json 200 (JObj [(''error'', JStr ''expired'')]), tokens)
          else (Json 200 (JObj [(''token'', token)]), tokens(tid := None)))"

text \<open>
  What the served page does: the script of the reveal page sends
  \<^verbatim>\<open>fetch('/consume/${id}')\<close> when its button is pressed, and only then.
\<close>

datatype event =
    Store jsval string
  | Visit string
  | Consume string
  | Expire string

fun reveal :: "page \<Rightarrow> event option" where
  "reveal (RevealPage tid) = Some (Consume tid)"
| "reveal ExpiredPage = None"

text \<open>One request or timer callback, and a sequence of them, on the token map.\<close>

fun step :: "tokens \<Rightarrow> event \<Rightarrow> tokens" where
  "step tokens (Store body uuid) = snd (store_route tokens body uuid)"
| "step tokens (Visit tid) = snd (t_route tokens tid)"
| "step tokens (Consume tid) = snd (consume_route tokens tid)"
| "step tokens (Expire tid) = ttl_callback tokens tid"

fun run :: "tokens \<Rightarrow> event list \<Rightarrow> tokens" where
  "run tokens [] = tokens"
| "run tokens (e # es) = run (step tokens e) es"

fun touches :: "string \<Rightarrow> event \<Rightarrow> bool" where
  "touches i (Store body uuid) = (uuid = i)"
| "touches i (Visit tid) = False"
| "touches i (Consume tid) = (tid = i)"
| "touches i (Expire tid) = (tid = i)"

fun stores :: "string \<Rightarrow> event \<Rightarrow> bool" where
  "stores i (Store body uuid) = (uuid = i)"
| "stores i e = False"


section \<open>Server: the signalling relay\<close>

text \<open>
  A connection (\<^verbatim>\<open>ws\<close>) is identified by a number.  What the relay reads of a socket, and
  does not control, is its \<^verbatim>\<open>readyState\<close> and whether a call of its \<^verbatim>\<open>send\<close> raises.
  \<^verbatim>\<open>const clients = new Set()\<close> is the list of its members in insertion order.
\<close>

type_synonym conn = nat

datatype ready_state = CONNECTING | OPEN | CLOSING | CLOSED

record sockets =
  readyState :: "conn \<Rightarrow> ready_state"
  send_throws :: "conn \<Rightarrow> bool"

datatype logline =
    Connected
  | Disconnected
  | Received jsval
  | UnknownType jsval
  | HandlingError exn

datatype effect =
    Sent conn string
  | Log logline
  | Terminate conn

definition Set_add :: "conn \<Rightarrow> conn list \<Rightarrow> conn list" where
  "Set_add ws clients = (if ws \<in> set clients then clients else clients @ [ws])"

definition Set_delete :: "conn \<Rightarrow> conn list \<Rightarrow> conn list" where
  "Set_delete ws clients = removeAll ws clients"

text \<open>
  A block of statements performs effects and may then raise: the effects done, and the
  exception if one was raised.  \<open>ws_send\<close> is one call \<^verbatim>\<open>ws.send(text)\<close>.
\<close>

type_synonym outcome = "effect list \<times> exn option"

definition ws_send :: "sockets \<Rightarrow> conn \<Rightarrow> string \<Rightarrow> outcome" where
  "ws_send S ws text =
     (if send_throws S ws then ([], Some (Error ''send'')) else ([Sent ws text], None))"

text \<open>
  \<^verbatim>\<open>clients.forEach((client) => { if (client !== ws && client.readyState === WebSocket.OPEN)
  client.send(text) })\<close>: an exception raised by a send leaves the loop.
\<close>

fun forEach_send :: "sockets \<Rightarrow> conn \<Rightarrow> string \<Rightarrow> conn list \<Rightarrow> outcome" where
  "forEach_send S ws text [] = ([], None)"
| "forEach_send S ws text (client # rest) =
     (if client \<noteq> ws \<and> readyState S client = OPEN then
        (case ws_send S client text of
           (es, Some e) \<Rightarrow> (es, Some e)
         | (es, None) \<Rightarrow> (case forEach_send S ws text rest of (es', x) \<Rightarrow> (es @ es', x)))
      else forEach_send S ws text rest)"

text \<open>
  The body of the \<^verbatim>\<open>try\<close> block of \<^verbatim>\<open>ws.on('message')\<close>, the same in both variants
  (the second converts a Buffer to its text first): parse, log the type, switch on it.
\<close>

definition try_message :: "platform \<Rightarrow> sockets \<Rightarrow> conn list \<Rightarrow> conn \<Rightarrow> string \<Rightarrow> outcome" where
  "try_message P S clients ws message =
     (case JSON_parse P message of
        Inl e \<Rightarrow> ([], Some e)
      | Inr data \<Rightarrow>
         (case get_prop data ''type'' of
            Inl e \<Rightarrow> ([], Some e)
          | Inr ty \<Rightarrow>
             (case (if ty = JStr ''offer'' then
                      (case get_prop data ''offer'' of
                         Inl e \<Rightarrow> ([], Some e)
                       | Inr offer \<Rightarrow>
                           ws_send S ws (JSON_stringify P
                             (JObj [(''type'', JStr ''offer-created''), (''offer'', offer)])))
                    else if ty = JStr ''answer'' then
                      (case get_prop data ''answer'' of
                         Inl e \<Rightarrow> ([], Some e)
                       | Inr answer \<Rightarrow>
                           ws_send S ws (JSON_stringify P
                             (JObj [(''type'', JStr ''answer-created''), (''answer'', answer)])))
                    else if ty = JStr ''ice-candidate'' then
                      (case get_prop data ''candidate'' of
                         Inl e \<Rightarrow> ([], Some e)
                       | Inr candidate \<Rightarrow>
                           forEach_send S ws (JSON_stringify P
                             (JObj [(''type'', JStr ''ice-candidate''), (''candidate'', candidate)]))
                             clients)
                    else ([Log (UnknownType ty)], None)) of
                (es, x) \<Rightarrow> (Log (Received ty) # es, x))))"

text \<open>
  \<^verbatim>\<open>ws.on('message')\<close> of the first variant: the \<^verbatim>\<open>catch\<close> logs.  A handler returns the
  client set, the effects, and the exception that escapes it, if any.
\<close>

type_synonym handled = "conn list \<times> effect list \<times> exn option"

definition on_message_v1 :: "platform \<Rightarrow> sockets \<Rightarrow> conn list \<Rightarrow> conn \<Rightarrow> string \<Rightarrow> handled" where
  "on_message_v1 P S clients ws message =
     (case try_message P S clients ws message of
        (es, None) \<Rightarrow> (clients, es, None)
      | (es, Some error) \<Rightarrow> (clients, es @ [Log (HandlingError error)], None))"

text \<open>
  \<^verbatim>\<open>ws.on('message')\<close> of the second variant: the \<^verbatim>\<open>catch\<close> logs and then tries to
  answer the sender, ignoring a failure of that send.
\<close>

definition error_message :: jsval where
  "error_message = JObj [(''type'', JStr ''error''), (''message'', JStr ''invalid message'')]"

definition on_message_v2 :: "platform \<Rightarrow> sockets \<Rightarrow> conn list \<Rightarrow> conn \<Rightarrow> string \<Rightarrow> handled" where
  "on_message_v2 P S clients ws message =
     (case try_message P S clients ws message of
        (es, None) \<Rightarrow> (clients, es, None)
      | (es, Some err) \<Rightarrow>
          (clients,
           es @ [Log (HandlingError err)] @ fst (ws_send S ws (JSON_stringify P error_message)),
           None))"

text \<open>
  \<^verbatim>\<open>wss.on('connection')\<close>: the first variant sends the welcome unguarded, the second only
  to an open socket and inside \<^verbatim>\<open>try\<close>.  \<^verbatim>\<open>ws.on('close')\<close> and \<^verbatim>\<open>ws.on('error')\<close>
  remove the socket; the shutdown of the second variant terminates the sockets of the
  WebSocket server.
\<close>

definition welcome_message :: jsval where
  "welcome_message = JObj [(''type'', JStr ''connected''),
                   (''message'', JStr ''Connected to signaling server'')]"

definition on_connection_v1 :: "platform \<Rightarrow> sockets \<Rightarrow> conn list \<Rightarrow> conn \<Rightarrow> handled" where
  "on_connection_v1 P S clients ws =
     (case ws_send S ws (JSON_stringify P welcome_message) of
        (es, x) \<Rightarrow> (Set_add ws clients, Log Connected # es, x))"

definition on_connection_v2 :: "platform \<Rightarrow> sockets \<Rightarrow> conn list \<Rightarrow> conn \<Rightarrow> handled" where
  "on_connection_v2 P S clients ws =
     (Set_add ws clients,
      Log Connected #
        (if readyState S ws = OPEN then fst (ws_send S ws (JSON_stringify P welcome_message)) else []),
      None)"

definition on_close :: "conn list \<Rightarrow> conn \<Rightarrow> handled" where
  "on_close clients ws = (Set_delete ws clients, [Log Disconnected], None)"

definition shutdown :: "conn list \<Rightarrow> effect list" where
  "shutdown wss_clients = map Terminate wss_clients"

fun is_log :: "effect \<Rightarrow> bool" where
  "is_log (Log l) = True"
| "is_log e = False"

text \<open>
  A message that is not JSON, or whose type cannot be read, or whose type is none of the
  three the relay handles.
\<close>

definition malformed :: "platform \<Rightarrow> string \<Rightarrow> bool" where
  "malformed P message =
     (case JSON_parse P message of
        Inl e \<Rightarrow> True
      | Inr data \<Rightarrow>
         (case get_prop data ''type'' of
            Inl e \<Rightarrow> True
          | Inr ty \<Rightarrow> ty \<noteq> JStr ''offer'' \<and> ty \<noteq> JStr ''answer'' \<and> ty \<noteq> JStr ''ice-candidate''))"


section \<open>Client: effects\<close>

text \<open>
  What the handlers of the client do to the data channel, the file reader and the page,
  in the order in which they do it.  \<open>UpdateProgress n d\<close> is
  \<^verbatim>\<open>updateProgress((n / d) * 100)\<close>; a status is one call of \<^verbatim>\<open>showStatus\<close>.
\<close>

type_synonym bytes = "8 word list"

record blob =
  parts :: "bytes list"
  blob_type :: jsval

datatype status =
    Receiving string
  | FileReceived
  | FileSent
  | EstablishConnectionFirst
  | SelectAFile
  | OfferShortUrlCreated
  | AnswerShortUrlCreated
  | FailedToShorten

datatype action =
    ChannelSendString string
  | ChannelSendBinary bytes
  | ReadAsArrayBuffer nat nat
  | ShowProgress
  | HideProgress
  | UpdateProgress nat jsval
  | ShowStatus status
  | DownloadFile blob jsval
  | TokenInput string
  | ClearQRCode
  | QRCode string nat
  | ShowAnswerSection
  | AddIceCandidate jsval

type_synonym performed = "action list \<times> exn option"


section \<open>Client: sending a file\<close>

text \<open>
  A selected \<^verbatim>\<open>File\<close>: its name, its MIME type (\<^verbatim>\<open>currentFile.type\<close>) and its bytes;
  \<^verbatim>\<open>currentFile.size\<close> is their number.  \<^verbatim>\<open>slice(start, end)\<close> clamps to the file.
\<close>

record jsfile =
  file_name :: string
  file_type :: string
  content :: bytes

definition file_size :: "jsfile \<Rightarrow> nat" where
  "file_size f = length (content f)"

definition slice :: "bytes \<Rightarrow> nat \<Rightarrow> nat \<Rightarrow> bytes" where
  "slice bs start end = take (end - start) (drop start bs)"

definition chunkSize :: nat where
  "chunkSize = 16384"

text \<open>
  \<^verbatim>\<open>readSlice(o)\<close> together with the \<^verbatim>\<open>onload\<close> callback that its read triggers: the
  slice is read, sent, \<^verbatim>\<open>offset\<close> advanced by its length, and the next slice is read only
  if \<^verbatim>\<open>offset < currentFile.size\<close>.  The read is taken to load (the reader has no
  \<^verbatim>\<open>onerror\<close> callback) and the open channel to accept the send.
\<close>

function readSlice :: "bytes \<Rightarrow> nat \<Rightarrow> action list" where
  "readSlice bs offset =
     [ReadAsArrayBuffer offset (offset + chunkSize),
      ChannelSendBinary (slice bs offset (offset + chunkSize)),
      UpdateProgress (offset + length (slice bs offset (offset + chunkSize)))
        (JNum (of_nat (length bs)))]
     @ (if offset + length (slice bs offset (offset + chunkSize)) < length bs
        then readSlice bs (offset + length (slice bs offset (offset + chunkSize)))
        else [ShowStatus FileSent, HideProgress])"
  by pat_completeness auto
termination
  by (relation "measure (\<lambda>(bs, offset). length bs - offset)")
     (auto simp: slice_def chunkSize_def min_def split: if_splits)

declare readSlice.simps [simp del]

definition metadata :: "jsfile \<Rightarrow> jsval" where
  "metadata f = JObj [(''type'', JStr ''metadata''), (''name'', JStr (file_name f)),
                      (''size'', JNum (of_nat (file_size f))), (''fileType'', JStr (file_type f))]"

text \<open>\<^verbatim>\<open>sendFiles()\<close>: the first selected file only.\<close>

definition sendFiles :: "platform \<Rightarrow> jsfile list \<Rightarrow> performed" where
  "sendFiles P selectedFiles =
     (case selectedFiles of
        [] \<Rightarrow> ([], Some TypeError)
      | currentFile # others \<Rightarrow>
          (ChannelSendString (JSON_stringify P (metadata currentFile)) # ShowProgress
             # readSlice (content currentFile) 0, None))"

text \<open>The click handler of the share button, which is the only caller.\<close>

definition share_click :: "platform \<Rightarrow> bool \<Rightarrow> jsfile list \<Rightarrow> performed" where
  "share_click P channel_open selectedFiles =
     (if \<not> channel_open then ([ShowStatus EstablishConnectionFirst], None)
      else if selectedFiles = [] then ([ShowStatus SelectAFile], None)
      else sendFiles P selectedFiles)"






section \<open>Client: receiving a file\<close>

text \<open>
  \<^verbatim>\<open>let receivedSize = 0, receivedChunks = [], fileMetadata = null\<close>, and
  \<^verbatim>\<open>receiveFile(ev)\<close> on \<^verbatim>\<open>ev.data\<close>, a string or an ArrayBuffer (whose
  \<^verbatim>\<open>byteLength\<close> is the number of its bytes).  The handler returns the variables as it
  leaves them, what it did, and the exception that escapes it, if any.
\<close>

record receiver =
  receivedSize :: nat
  receivedChunks :: "bytes list"
  fileMetadata :: jsval

definition initial_receiver :: receiver where
  "initial_receiver = \<lparr>receivedSize = 0, receivedChunks = [], fileMetadata = JNull\<rparr>"

datatype data = StringData string | BinaryData bytes

fun receiveFile :: "platform \<Rightarrow> receiver \<Rightarrow> data \<Rightarrow> receiver \<times> action list \<times> exn option" where
  "receiveFile P r (StringData s) =
     (case JSON_parse P s of
        Inl e \<Rightarrow> (r, [], Some e)
      | Inr m \<Rightarrow>
         (case get_prop m ''name'' of
            Inl e \<Rightarrow>
              (\<lparr>receivedSize = 0, receivedChunks = [], fileMetadata = m\<rparr>, [ShowProgress], Some e)
          | Inr n \<Rightarrow>
              (\<lparr>receivedSize = 0, receivedChunks = [], fileMetadata = m\<rparr>,
               [ShowProgress, ShowStatus (Receiving (ToString P n))], None)))"
| "receiveFile P r (BinaryData b) =
     (case get_prop (fileMetadata r) ''size'' of
        Inl e \<Rightarrow>
          (r\<lparr>receivedChunks := receivedChunks r @ [b], receivedSize := receivedSize r + length b\<rparr>,
           [], Some e)
      | Inr sz \<Rightarrow>
          if JNum (of_nat (receivedSize r + length b)) = sz then
            (case get_prop (fileMetadata r) ''fileType'' of
               Inl e \<Rightarrow>
                 (r\<lparr>receivedChunks := receivedChunks r @ [b],
                    receivedSize := receivedSize r + length b\<rparr>,
                  [UpdateProgress (receivedSize r + length b) sz], Some e)
             | Inr ft \<Rightarrow>
                (case get_prop (fileMetadata r) ''name'' of
                   Inl e \<Rightarrow>
                     (r\<lparr>receivedChunks := receivedChunks r @ [b],
                        receivedSize := receivedSize r + length b\<rparr>,
                      [UpdateProgress (receivedSize r + length b) sz], Some e)
                 | Inr n \<Rightarrow>
                     (r\<lparr>receivedChunks := receivedChunks r @ [b],
                        receivedSize := receivedSize r + length b\<rparr>,
                      [UpdateProgress (receivedSize r + length b) sz,
                       DownloadFile \<lparr>parts = receivedChunks r @ [b], blob_type = ft\<rparr> n,
                       HideProgress, ShowStatus FileReceived], None)))
          else
            (r\<lparr>receivedChunks := receivedChunks r @ [b], receivedSize := receivedSize r + length b\<rparr>,
             [UpdateProgress (receivedSize r + length b) sz], None))"

text \<open>
  The messages of a channel, one handler call each; an exception that escapes one call
  does not keep the next message from being handled.
\<close>

fun receive_all :: "platform \<Rightarrow> receiver \<Rightarrow> data list \<Rightarrow> receiver \<times> action list" where
  "receive_all P r [] = (r, [])"
| "receive_all P r (d # ds) =
     (case receiveFile P r d of
        (r', acts, x) \<Rightarrow> (case receive_all P r' ds of (r'', acts') \<Rightarrow> (r'', acts @ acts')))"

text \<open>The completion events among the effects: the blobs handed to \<^verbatim>\<open>downloadFile\<close>.\<close>

fun downloads :: "action list \<Rightarrow> blob list" where
  "downloads [] = []"
| "downloads (DownloadFile b n # as) = b # downloads as"
| "downloads (a # as) = downloads as"

definition blob_size :: "blob \<Rightarrow> nat" where
  "blob_size b = length (concat (parts b))"

text \<open>
  A platform for running the handlers on examples: \<^verbatim>\<open>JSON.parse\<close> knows the texts of a
  table and rejects every other text; \<^verbatim>\<open>JSON.stringify\<close> maps a value of the table back
  to its text.
\<close>

definition table_platform :: "(string \<times> jsval) list \<Rightarrow> platform" where
  "table_platform t =
     \<lparr>JSON_parse = (\<lambda>s. case map_of t s of None \<Rightarrow> Inl SyntaxError | Some v \<Rightarrow> Inr v),
      JSON_stringify = (\<lambda>v. case map_of (map (\<lambda>(s, v). (v, s)) t) v of None \<Rightarrow> [] | Some s \<Rightarrow> s),
      ToString = (\<lambda>v. case v of JStr s \<Rightarrow> s | _ \<Rightarrow> []),
      URL_href = (\<lambda>s. None)\<rparr>"


section \<open>Client: the handshake\<close>

text \<open>
  \<^verbatim>\<open>waitForIceGatheringComplete(pc, timeout = 3000)\<close>.  \<open>pc\<close> is \<open>None\<close> when there is
  no connection object, else the \<^verbatim>\<open>iceGatheringState\<close> at the call.  The promise records
  when it was resolved (in ms after the call), whether the listener is registered and
  whether the timer is pending.  Resolving a resolved promise changes nothing.
\<close>

datatype gathering = New | Gathering | Complete

record promise =
  resolved_at :: "nat option"
  listener :: bool
  timer :: bool

definition resolve :: "nat \<Rightarrow> promise \<Rightarrow> promise" where
  "resolve t p = (case resolved_at p of None \<Rightarrow> p\<lparr>resolved_at := Some t\<rparr> | Some t' \<Rightarrow> p)"

definition wait_start :: "gathering option \<Rightarrow> promise" where
  "wait_start pc =
     (case pc of
        None \<Rightarrow> \<lparr>resolved_at = Some 0, listener = False, timer = False\<rparr>
      | Some g \<Rightarrow>
          if g = Complete then \<lparr>resolved_at = Some 0, listener = False, timer = False\<rparr>
          else \<lparr>resolved_at = None, listener = True, timer = True\<rparr>)"

text \<open>
  The listener, called at time \<open>t\<close> with the state \<open>g\<close> that the connection has then, and
  the callback of the timer.
\<close>

definition handler :: "promise \<Rightarrow> nat \<times> gathering \<Rightarrow> promise" where
  "handler p ev =
     (if listener p \<and> snd ev = Complete then resolve (fst ev) (p\<lparr>listener := False\<rparr>) else p)"

definition timer_callback :: "nat \<Rightarrow> promise \<Rightarrow> promise" where
  "timer_callback t p = (if timer p then resolve t (p\<lparr>listener := False, timer := False\<rparr>) else p)"

text \<open>
  The event loop: the state changes of the connection, in the order of their times, and
  the timer, which runs \<open>timeout\<close> ms after the call.
\<close>

definition early :: "nat \<Rightarrow> nat \<times> gathering \<Rightarrow> bool" where
  "early timeout ev = (fst ev < timeout)"

definition waitForIceGatheringComplete ::
    "gathering option \<Rightarrow> nat \<Rightarrow> (nat \<times> gathering) list \<Rightarrow> promise" where
  "waitForIceGatheringComplete pc timeout changes =
     foldl handler
       (timer_callback timeout (foldl handler (wait_start pc) (takeWhile (early timeout) changes)))
       (dropWhile (early timeout) changes)"

definition default_timeout :: nat where
  "default_timeout = 3000"

text \<open>
  \<^verbatim>\<open>storeTokenAndGetShortUrl(tokenString)\<close>.  \<open>fetch\<close> gives, for the body posted to
  \<^verbatim>\<open>/store\<close>, what the request came to: a rejection, or a response with its \<^verbatim>\<open>ok\<close> flag
  and the result of \<^verbatim>\<open>resp.json()\<close>.
\<close>

datatype fetched = Rejected exn | Response bool "exn + jsval"

definition storeTokenAndGetShortUrl ::
    "platform \<Rightarrow> string \<Rightarrow> (string \<Rightarrow> fetched) \<Rightarrow> string \<Rightarrow> exn + string" where
  "storeTokenAndGetShortUrl P origin fetch tokenString =
     (case fetch (JSON_stringify P (JObj [(''token'', JStr tokenString)])) of
        Rejected e \<Rightarrow> Inl e
      | Response ok body \<Rightarrow>
          if \<not> ok then Inl (Error ''store failed'')
          else (case body of
                  Inl e \<Rightarrow> Inl e
                | Inr j \<Rightarrow>
                   (case get_prop j ''id'' of
                      Inl e \<Rightarrow> Inl e
                    | Inr i \<Rightarrow> Inr (origin @ ''/t/'' @ ToString P i))))"

text \<open>
  \<^verbatim>\<open>generateQRCode(text, size)\<close>: the old code is cleared, the text is replaced by
  \<^verbatim>\<open>new URL(text, location.origin).href\<close> unless that constructor raises, and the QR
  code is made of the result.  The constructor of the QR code library is not part of the
  program: \<open>qr_raises\<close> tells for which text and size it raises.  No caller guards the
  call.
\<close>

definition generateQRCode ::
    "platform \<Rightarrow> (string \<Rightarrow> nat \<Rightarrow> bool) \<Rightarrow> string \<Rightarrow> nat \<Rightarrow> performed" where
  "generateQRCode P qr_raises text width =
     (if qr_raises (case URL_href P text of None \<Rightarrow> text | Some href \<Rightarrow> href) width
      then ([ClearQRCode], Some (Error ''QRCode''))
      else ([ClearQRCode,
             QRCode (case URL_href P text of None \<Rightarrow> text | Some href \<Rightarrow> href) width], None))"

text \<open>
  The \<^verbatim>\<open>catch\<close> block of the two branches of \<^verbatim>\<open>ws.onmessage\<close> that turn an echoed
  description into a token: the full token goes to the token field and to
  \<^verbatim>\<open>generateQRCode\<close> with size 256; an exception of that call leaves the handler.
\<close>

definition show_full_token ::
    "platform \<Rightarrow> (string \<Rightarrow> nat \<Rightarrow> bool) \<Rightarrow> string \<Rightarrow> performed" where
  "show_full_token P qr_raises token =
     (case generateQRCode P qr_raises token 256 of
        (acts, Some e) \<Rightarrow> (TokenInput token # acts, Some e)
      | (acts, None) \<Rightarrow> (TokenInput token # acts @ [ShowStatus FailedToShorten], None))"

text \<open>
  The \<^verbatim>\<open>try\<close> block and its \<^verbatim>\<open>catch\<close>: \<open>created\<close> is the description, \<open>for_offer\<close>
  tells the \<^verbatim>\<open>offer-created\<close> branch from the \<^verbatim>\<open>answer-created\<close> one.  An exception
  of \<^verbatim>\<open>storeTokenAndGetShortUrl\<close> or of the QR code of the short URL enters the
  \<^verbatim>\<open>catch\<close> block.
\<close>

definition present_token ::
    "platform \<Rightarrow> (string \<Rightarrow> nat \<Rightarrow> bool) \<Rightarrow> string \<Rightarrow> (string \<Rightarrow> fetched) \<Rightarrow> bool \<Rightarrow> jsval
       \<Rightarrow> performed" where
  "present_token P qr_raises origin fetch for_offer created =
     (case storeTokenAndGetShortUrl P origin fetch (JSON_stringify P created) of
        Inl err \<Rightarrow> show_full_token P qr_raises (JSON_stringify P created)
      | Inr short \<Rightarrow>
         (case generateQRCode P qr_raises short 128 of
            (acts, Some e) \<Rightarrow>
              (case show_full_token P qr_raises (JSON_stringify P created) of
                 (acts', x) \<Rightarrow> (TokenInput short # acts @ acts', x))
          | (acts, None) \<Rightarrow>
              (TokenInput short # acts
                 @ (if for_offer then [ShowAnswerSection, ShowStatus OfferShortUrlCreated]
                    else [ShowStatus AnswerShortUrlCreated]), None)))"

text \<open>\<^verbatim>\<open>ws.onmessage\<close>; \<open>peerConnection\<close> tells whether the connection object exists.\<close>

definition ws_onmessage ::
    "platform \<Rightarrow> (string \<Rightarrow> nat \<Rightarrow> bool) \<Rightarrow> string \<Rightarrow> (string \<Rightarrow> fetched) \<Rightarrow> bool \<Rightarrow> string
       \<Rightarrow> performed" where
  "ws_onmessage P qr_raises origin fetch peerConnection evt_data =
     (case JSON_parse P evt_data of
        Inl e \<Rightarrow> ([], Some e)
      | Inr data \<Rightarrow>
         (case get_prop data ''type'' of
            Inl e \<Rightarrow> ([], Some e)
          | Inr ty \<Rightarrow>
              if ty = JStr ''offer-created'' then
                (case get_prop data ''offer'' of
                   Inl e \<Rightarrow> ([], Some e)
                 | Inr offer \<Rightarrow> present_token P qr_raises origin fetch True offer)
              else if ty = JStr ''answer-created'' then
                (case get_prop data ''answer'' of
                   Inl e \<Rightarrow> ([], Some e)
                 | Inr answer \<Rightarrow> present_token P qr_raises origin fetch False answer)
              else if ty = JStr ''ice-candidate'' \<and> peerConnection then
                (case get_prop data ''candidate'' of
                   Inl e \<Rightarrow> ([], Some e)
                 | Inr candidate \<Rightarrow> ([AddIceCandidate candidate], None))
              else ([], None)))"


section \<open>Properties of the token store\<close>

lemma step_untouched: "\<not> touches i e \<Longrightarrow> step tokens e i = tokens i"
  by (cases e)
     (auto simp: store_route_def t_route_def consume_route_def ttl_callback_def
           split: sum.splits option.splits)

lemma run_untouched: "list_all (\<lambda>e. \<not> touches i e) es \<Longrightarrow> run tokens es i = tokens i"
  by (induction es arbitrary: tokens) (simp_all add: step_untouched)

lemma step_stays_absent: "\<not> stores i e \<Longrightarrow> tokens i = None \<Longrightarrow> step tokens e i = None"
  by (cases e)
     (auto simp: store_route_def t_route_def consume_route_def ttl_callback_def
           split: sum.splits option.splits)

lemma run_stays_absent:
  "list_all (\<lambda>e. \<not> stores i e) es \<Longrightarrow> tokens i = None \<Longrightarrow> run tokens es i = None"
  by (induction es arbitrary: tokens) (simp_all add: step_stays_absent)

lemma consume_absent:
  "tokens i = None \<Longrightarrow> consume_route tokens i = (Json 200 (JObj [(''error'', JStr ''expired'')]), tokens)"
  by (simp add: consume_route_def)

text \<open>
  C1.  A payload that \<^verbatim>\<open>/store\<close> accepted under the identifier \<open>uuid\<close> is returned by the
  first \<^verbatim>\<open>/consume\<close> of that identifier, which deletes the entry; a second consume of the
  identifier answers \<^verbatim>\<open>{error: 'expired'}\<close>.  Other requests and timers may run in
  between: before the first consume none that concerns the identifier, after it none that
  stores under it again (identifiers are fresh UUIDs).
\<close>

theorem consume_once:
  assumes "store_route tokens body uuid = (Json 200 r, tokens1)"
    and "get_prop body ''token'' = Inr token"
    and "list_all (\<lambda>e. \<not> touches uuid e) es1"
    and "list_all (\<lambda>e. \<not> stores uuid e) es2"
    and "consume_route (run tokens1 es1) uuid = (r1, tokens2)"
    and "consume_route (run tokens2 es2) uuid = (r2, tokens3)"
  shows "r1 = Json 200 (JObj [(''token'', token)]) \<and> tokens2 uuid = None
    \<and> r2 = Json 200 (JObj [(''error'', JStr ''expired'')]) \<and> tokens3 uuid = None"
proof -
  from assms(1,2) have t: "truthy token" and s1: "tokens1 uuid = Some token"
    by (auto simp: store_route_def split: if_splits)
  from s1 assms(3) have "run tokens1 es1 uuid = Some token"
    by (simp add: run_untouched)
  with t assms(5) have first: "r1 = Json 200 (JObj [(''token'', token)])" "tokens2 uuid = None"
    by (auto simp: consume_route_def)
  from first(2) assms(4) have gone: "run tokens2 es2 uuid = None"
    by (rule run_stays_absent [rotated])
  with assms(6) have "r2 = Json 200 (JObj [(''error'', JStr ''expired'')])" "tokens3 uuid = None"
    by (auto simp: consume_absent)
  with first show ?thesis by simp
qed

theorem consume_once_witness:
  "consume_route (run (snd (store_route Map.empty (JObj [(''token'', JStr ''OFFER_SDP_X'')]) ''abc''))
        [Visit ''abc'', Store (JObj [(''token'', JStr ''other'')]) ''xyz'']) ''abc''
     = (Json 200 (JObj [(''token'', JStr ''OFFER_SDP_X'')]),
        [''xyz'' \<mapsto> JStr ''other''])
   \<and> fst (consume_route (run [''xyz'' \<mapsto> JStr ''other''] [Visit ''abc'', Expire ''abc'', Consume ''xyz''])
        ''abc'') = Json 200 (JObj [(''error'', JStr ''expired'')])"
proof -
  let ?body = "JObj [(''token'', JStr ''OFFER_SDP_X'')]"
  let ?es1 = "[Visit ''abc'', Store (JObj [(''token'', JStr ''other'')]) ''xyz'']"
  let ?es2 = "[Visit ''abc'', Expire ''abc'', Consume ''xyz'']"
  let ?t1 = "[''abc'' \<mapsto> JStr ''OFFER_SDP_X'']"
  let ?t2 = "[''xyz'' \<mapsto> JStr ''other'']"
  have a: "store_route Map.empty ?body ''abc'' = (Json 200 (JObj [(''id'', JStr ''abc'')]), ?t1)"
    by (simp add: store_route_def)
  have b: "get_prop ?body ''token'' = Inr (JStr ''OFFER_SDP_X'')" by simp
  have c: "list_all (\<lambda>e. \<not> touches ''abc'' e) ?es1" by simp
  have d: "list_all (\<lambda>e. \<not> stores ''abc'' e) ?es2" by simp
  have e: "consume_route (run ?t1 ?es1) ''abc''
      = (Json 200 (JObj [(''token'', JStr ''OFFER_SDP_X'')]), ?t2)"
    by (auto simp: consume_route_def store_route_def t_route_def fun_eq_iff)
  obtain r2 t3 where f: "consume_route (run ?t2 ?es2) ''abc'' = (r2, t3)"
    by (cases "consume_route (run ?t2 ?es2) ''abc''")
  from consume_once [OF a b c d e f] a e f show ?thesis by simp
qed

text \<open>
  C7.  Serving \<^verbatim>\<open>GET /t/:id\<close> leaves the token map as it was, for any number of such
  requests and any identifiers; an entry that a request or callback removes was removed by
  \<^verbatim>\<open>/consume\<close> of its identifier or by the expiry timer of its identifier; and the reveal
  page served for a live identifier issues, on its reveal action, the consume request for
  that identifier.
\<close>

theorem visit_keeps_tokens:
  "snd (t_route tokens tid) = tokens
   \<and> run tokens (map Visit ids) = tokens
   \<and> (tokens i \<noteq> None \<and> step tokens e i = None \<longrightarrow> e = Consume i \<or> e = Expire i)
   \<and> (\<forall>p. fst (t_route tokens tid) = Html 200 p \<longrightarrow> reveal p = Some (Consume tid))"
proof -
  have one: "snd (t_route t j) = t" for t j
    by (simp add: t_route_def split: option.splits)
  have many: "run tokens (map Visit ids) = tokens"
    by (induction ids) (simp_all add: one)
  have del: "tokens i \<noteq> None \<and> step tokens e i = None \<longrightarrow> e = Consume i \<or> e = Expire i"
    by (cases e)
       (auto simp: store_route_def one consume_route_def ttl_callback_def
             split: sum.splits option.splits if_splits)
  have page: "\<forall>p. fst (t_route tokens tid) = Html 200 p \<longrightarrow> reveal p = Some (Consume tid)"
    by (auto simp: t_route_def split: option.splits if_splits)
  from one many del page show ?thesis by blast
qed

theorem visit_keeps_tokens_witness:
  "run [''abc'' \<mapsto> JStr ''OFFER_SDP_X''] (map Visit [''abc'', ''abc'', ''nope''])
     = [''abc'' \<mapsto> JStr ''OFFER_SDP_X'']
   \<and> step [''abc'' \<mapsto> JStr ''OFFER_SDP_X''] (Consume ''abc'') ''abc'' = None
   \<and> fst (t_route [''abc'' \<mapsto> JStr ''OFFER_SDP_X''] ''abc'') = Html 200 (RevealPage ''abc'')
   \<and> reveal (RevealPage ''abc'') = Some (Consume ''abc'')"
  using visit_keeps_tokens [of "[''abc'' \<mapsto> JStr ''OFFER_SDP_X'']" "''abc''"
      "[''abc'', ''abc'', ''nope'']" "''abc''" "Consume ''abc''"]
  by (simp add: t_route_def consume_route_def)



section \<open>Properties of the relay\<close>

lemma forEach_send_recipients:
  "\<forall>c\<in>set cs. readyState S c = OPEN \<and> c \<noteq> ws \<longrightarrow> \<not> send_throws S c \<Longrightarrow>
   forEach_send S ws text cs
     = (map (\<lambda>c. Sent c text) (filter (\<lambda>c. c \<noteq> ws \<and> readyState S c = OPEN) cs), None)"
  by (induction cs) (auto simp: ws_send_def)

lemma forEach_send_prefix:
  "\<exists>n. fst (forEach_send S ws text cs)
     = map (\<lambda>c. Sent c text) (take n (filter (\<lambda>c. c \<noteq> ws \<and> readyState S c = OPEN) cs))"
proof (induction cs)
  case Nil
  show ?case by simp
next
  case (Cons c cs)
  then obtain n where n: "fst (forEach_send S ws text cs)
     = map (\<lambda>c. Sent c text) (take n (filter (\<lambda>c. c \<noteq> ws \<and> readyState S c = OPEN) cs))"
    by blast
  show ?case
  proof (cases "c \<noteq> ws \<and> readyState S c = OPEN")
    case False
    with n show ?thesis by auto
  next
    case True
    show ?thesis
    proof (cases "send_throws S c")
      case True
      with \<open>c \<noteq> ws \<and> readyState S c = OPEN\<close> have "fst (forEach_send S ws text (c # cs)) = []"
        by (simp add: ws_send_def)
      then show ?thesis by (intro exI [of _ 0]) simp
    next
      case False
      with True n have "fst (forEach_send S ws text (c # cs))
         = map (\<lambda>c. Sent c text) (take (Suc n) (filter (\<lambda>c. c \<noteq> ws \<and> readyState S c = OPEN) (c # cs)))"
        by (auto simp: ws_send_def split: prod.splits)
      then show ?thesis by blast
    qed
  qed
qed

lemma length_others:
  assumes "distinct cs" "ws \<in> set cs"
  shows "length (filter (\<lambda>c. c \<noteq> ws) cs) = length cs - 1"
proof -
  have "length (filter (\<lambda>c. c \<noteq> ws) cs) = card ({c. c \<noteq> ws} \<inter> set cs)"
    using assms(1) by (rule distinct_length_filter)
  also have "{c. c \<noteq> ws} \<inter> set cs = set cs - {ws}" by auto
  also have "card (set cs - {ws}) = card (set cs) - 1" using assms(2) by simp
  also have "card (set cs) = length cs" using assms(1) by (rule distinct_card)
  finally show ?thesis .
qed

lemma length_filter_all: "(length (filter Q ys) = length ys) = (\<forall>y\<in>set ys. Q y)"
  by (metis filter_id_conv length_filter_less less_irrefl)

lemma filter_open_all:
  assumes "distinct cs" "ws \<in> set cs"
  shows "(length (filter (\<lambda>c. c \<noteq> ws \<and> Q c) cs) = length cs - 1)
    = (\<forall>c\<in>set cs. c \<noteq> ws \<longrightarrow> Q c)"
proof -
  have "filter (\<lambda>c. c \<noteq> ws \<and> Q c) cs = filter Q (filter (\<lambda>c. c \<noteq> ws) cs)"
    by (simp add: conj_commute)
  then have "(length (filter (\<lambda>c. c \<noteq> ws \<and> Q c) cs) = length cs - 1)
    = (length (filter Q (filter (\<lambda>c. c \<noteq> ws) cs)) = length (filter (\<lambda>c. c \<noteq> ws) cs))"
    using length_others [OF assms] by simp
  also have "\<dots> = (\<forall>c\<in>set (filter (\<lambda>c. c \<noteq> ws) cs). Q c)"
    by (rule length_filter_all)
  finally show ?thesis by auto
qed

lemma try_message_ice:
  assumes "JSON_parse P message = Inr data"
    and "get_prop data ''type'' = Inr (JStr ''ice-candidate'')"
    and "get_prop data ''candidate'' = Inr candidate"
  shows "try_message P S clients ws message
     = (case forEach_send S ws (JSON_stringify P
             (JObj [(''type'', JStr ''ice-candidate''), (''candidate'', candidate)])) clients of
          (es, x) \<Rightarrow> (Log (Received (JStr ''ice-candidate'')) # es, x))"
  using assms by (simp add: try_message_def)

text \<open>
  C4.  With \<open>K\<close> registered connections, all of them open (and accepting a send), an
  \<^verbatim>\<open>ice-candidate\<close> message from one of them is sent, in both variants, once to each of
  the other \<open>K - 1\<close> connections and not to the sender; nothing else is sent.
\<close>

theorem ice_candidate_others:
  assumes "distinct clients" and "ws \<in> set clients"
    and "\<forall>c\<in>set clients. readyState S c = OPEN \<and> \<not> send_throws S c"
    and "JSON_parse P message = Inr data"
    and "get_prop data ''type'' = Inr (JStr ''ice-candidate'')"
    and "get_prop data ''candidate'' = Inr candidate"
    and "text = JSON_stringify P (JObj [(''type'', JStr ''ice-candidate''), (''candidate'', candidate)])"
    and "others = filter (\<lambda>c. c \<noteq> ws) clients"
  shows "on_message_v1 P S clients ws message
       = (clients, Log (Received (JStr ''ice-candidate'')) # map (\<lambda>c. Sent c text) others, None)
     \<and> on_message_v2 P S clients ws message
       = (clients, Log (Received (JStr ''ice-candidate'')) # map (\<lambda>c. Sent c text) others, None)
     \<and> length others = length clients - 1 \<and> distinct others \<and> set others = set clients - {ws}"
proof -
  have "\<forall>c\<in>set clients. readyState S c = OPEN \<and> c \<noteq> ws \<longrightarrow> \<not> send_throws S c"
    using assms(3) by blast
  then have "forEach_send S ws text clients
     = (map (\<lambda>c. Sent c text) (filter (\<lambda>c. c \<noteq> ws \<and> readyState S c = OPEN) clients), None)"
    by (rule forEach_send_recipients)
  moreover have "filter (\<lambda>c. c \<noteq> ws \<and> readyState S c = OPEN) clients = others"
    unfolding assms(8) using assms(3) by (intro filter_cong) auto
  ultimately have "try_message P S clients ws message
     = (Log (Received (JStr ''ice-candidate'')) # map (\<lambda>c. Sent c text) others, None)"
    using try_message_ice [OF assms(4,5,6)] assms(7) by simp
  then have "on_message_v1 P S clients ws message
       = (clients, Log (Received (JStr ''ice-candidate'')) # map (\<lambda>c. Sent c text) others, None)"
    and "on_message_v2 P S clients ws message
       = (clients, Log (Received (JStr ''ice-candidate'')) # map (\<lambda>c. Sent c text) others, None)"
    by (simp_all add: on_message_v1_def on_message_v2_def)
  moreover have "length others = length clients - 1"
    unfolding assms(8) using assms(1,2) by (rule length_others)
  moreover have "distinct others" "set others = set clients - {ws}"
    unfolding assms(8) using assms(1) by auto
  ultimately show ?thesis by simp
qed

text \<open>
  C10.  The broadcast of an \<^verbatim>\<open>ice-candidate\<close> goes only to registered connections other
  than the sender whose \<^verbatim>\<open>readyState\<close> is \<^verbatim>\<open>OPEN\<close>: the \<^verbatim>\<open>try\<close> block sends to an
  initial part of them, and to all of them when no send raises; a registered connection
  that is not open is skipped; and these are the \<open>K - 1\<close> other connections exactly when
  every other registered connection is open.
\<close>

theorem ice_candidate_open_only:
  assumes "JSON_parse P message = Inr data"
    and "get_prop data ''type'' = Inr (JStr ''ice-candidate'')"
    and "get_prop data ''candidate'' = Inr candidate"
    and "text = JSON_stringify P (JObj [(''type'', JStr ''ice-candidate''), (''candidate'', candidate)])"
    and "targets = filter (\<lambda>c. c \<noteq> ws \<and> readyState S c = OPEN) clients"
  shows "(\<exists>n. fst (try_message P S clients ws message)
            = Log (Received (JStr ''ice-candidate'')) # map (\<lambda>c. Sent c text) (take n targets))
     \<and> ((\<forall>c\<in>set targets. \<not> send_throws S c) \<longrightarrow>
          on_message_v1 P S clients ws message
            = (clients, Log (Received (JStr ''ice-candidate'')) # map (\<lambda>c. Sent c text) targets, None)
        \<and> on_message_v2 P S clients ws message
            = (clients, Log (Received (JStr ''ice-candidate'')) # map (\<lambda>c. Sent c text) targets, None))
     \<and> (\<forall>c\<in>set clients. readyState S c \<noteq> OPEN \<longrightarrow> c \<notin> set targets)
     \<and> (distinct clients \<and> ws \<in> set clients \<longrightarrow>
          (length targets = length clients - 1)
            = (\<forall>c\<in>set clients. c \<noteq> ws \<longrightarrow> readyState S c = OPEN))"
proof -
  obtain n where "fst (forEach_send S ws text clients) = map (\<lambda>c. Sent c text) (take n targets)"
    unfolding assms(5) using forEach_send_prefix by blast
  then have a: "\<exists>n. fst (try_message P S clients ws message)
            = Log (Received (JStr ''ice-candidate'')) # map (\<lambda>c. Sent c text) (take n targets)"
    using try_message_ice [OF assms(1,2,3)] assms(4) by (auto split: prod.splits)
  have b: "on_message_v1 P S clients ws message
            = (clients, Log (Received (JStr ''ice-candidate'')) # map (\<lambda>c. Sent c text) targets, None)
        \<and> on_message_v2 P S clients ws message
            = (clients, Log (Received (JStr ''ice-candidate'')) # map (\<lambda>c. Sent c text) targets, None)"
    if "\<forall>c\<in>set targets. \<not> send_throws S c"
  proof -
    from that have "\<forall>c\<in>set clients. readyState S c = OPEN \<and> c \<noteq> ws \<longrightarrow> \<not> send_throws S c"
      unfolding assms(5) by simp
    then have "forEach_send S ws text clients = (map (\<lambda>c. Sent c text) targets, None)"
      unfolding assms(5) by (rule forEach_send_recipients)
    then have "try_message P S clients ws message
       = (Log (Received (JStr ''ice-candidate'')) # map (\<lambda>c. Sent c text) targets, None)"
      using try_message_ice [OF assms(1,2,3)] assms(4) by simp
    then show ?thesis by (simp add: on_message_v1_def on_message_v2_def)
  qed
  have c: "\<forall>c\<in>set clients. readyState S c \<noteq> OPEN \<longrightarrow> c \<notin> set targets"
    unfolding assms(5) by simp
  have d: "(length targets = length clients - 1)
            = (\<forall>c\<in>set clients. c \<noteq> ws \<longrightarrow> readyState S c = OPEN)"
    if "distinct clients \<and> ws \<in> set clients"
    unfolding assms(5) using that filter_open_all [of clients ws "\<lambda>c. readyState S c = OPEN"]
    by simp
  from a b c d show ?thesis by blast
qed

lemma on_message_total:
  "\<exists>es. on_message_v1 P S clients ws message = (clients, es, None)"
  "\<exists>es. on_message_v2 P S clients ws message = (clients, es, None)"
  by (auto simp: on_message_v1_def on_message_v2_def split: prod.splits option.splits)

text \<open>
  C6.  A message that is not JSON, or has no readable type, or has a type that the relay
  does not know, is handled without an exception leaving the handler: the client set is
  returned as it was, the effects are not empty and are log lines only, in the second
  variant also the \<^verbatim>\<open>error\<close> answer to the sender; no socket is terminated.
\<close>

theorem malformed_message_survives:
  assumes "malformed P message"
  shows "(\<exists>es. on_message_v1 P S clients ws message = (clients, es, None)
            \<and> es \<noteq> [] \<and> list_all is_log es)
     \<and> (\<exists>es. on_message_v2 P S clients ws message = (clients, es, None)
            \<and> es \<noteq> [] \<and> list_all (\<lambda>e. is_log e \<or> e = Sent ws (JSON_stringify P error_message)) es)"
proof -
  from assms consider
      (bad_json) e where "JSON_parse P message = Inl e"
    | (bad_shape) data e where "JSON_parse P message = Inr data" "get_prop data ''type'' = Inl e"
    | (unknown) data ty where "JSON_parse P message = Inr data" "get_prop data ''type'' = Inr ty"
        "ty \<noteq> JStr ''offer''" "ty \<noteq> JStr ''answer''" "ty \<noteq> JStr ''ice-candidate''"
    by (auto simp: malformed_def split: sum.splits)
  then show ?thesis
  proof cases
    case bad_json
    then have "try_message P S clients ws message = ([], Some e)"
      by (simp add: try_message_def)
    then show ?thesis
      by (simp add: on_message_v1_def on_message_v2_def ws_send_def)
  next
    case bad_shape
    then have "try_message P S clients ws message = ([], Some e)"
      by (simp add: try_message_def)
    then show ?thesis
      by (simp add: on_message_v1_def on_message_v2_def ws_send_def)
  next
    case unknown
    then have "try_message P S clients ws message = ([Log (Received ty), Log (UnknownType ty)], None)"
      by (simp add: try_message_def)
    then show ?thesis
      by (simp add: on_message_v1_def on_message_v2_def)
  qed
qed


theorem ice_candidate_others_witness:
  "on_message_v1
     \<lparr>JSON_parse = (\<lambda>s. if s = ''ice'' then
          Inr (JObj [(''type'', JStr ''ice-candidate''), (''candidate'', JStr ''c1'')])
          else Inl SyntaxError),
      JSON_stringify = (\<lambda>v. ''relayed''), ToString = (\<lambda>v. []), URL_href = (\<lambda>s. None)\<rparr>
     \<lparr>readyState = (\<lambda>c. OPEN), send_throws = (\<lambda>c. False)\<rparr> [1, 2, 3] 2 ''ice''
   = ([1, 2, 3], [Log (Received (JStr ''ice-candidate'')), Sent 1 ''relayed'', Sent 3 ''relayed''], None)
   \<and> length [1, 3 :: nat] = length [1, 2, 3 :: nat] - 1"
  using ice_candidate_others [of "[1, 2, 3]" 2 "\<lparr>readyState = (\<lambda>c. OPEN), send_throws = (\<lambda>c. False)\<rparr>"
      "\<lparr>JSON_parse = (\<lambda>s. if s = ''ice'' then
          Inr (JObj [(''type'', JStr ''ice-candidate''), (''candidate'', JStr ''c1'')])
          else Inl SyntaxError),
      JSON_stringify = (\<lambda>v. ''relayed''), ToString = (\<lambda>v. []), URL_href = (\<lambda>s. None)\<rparr>"
      "''ice''" "JObj [(''type'', JStr ''ice-candidate''), (''candidate'', JStr ''c1'')]"
      "JStr ''c1''" "''relayed''" "[1, 3]"]
  by simp

theorem ice_candidate_open_only_witness:
  "on_message_v2
     \<lparr>JSON_parse = (\<lambda>s. if s = ''ice'' then
          Inr (JObj [(''type'', JStr ''ice-candidate''), (''candidate'', JStr ''c1'')])
          else Inl SyntaxError),
      JSON_stringify = (\<lambda>v. ''relayed''), ToString = (\<lambda>v. []), URL_href = (\<lambda>s. None)\<rparr>
     \<lparr>readyState = (\<lambda>c. if c = 3 then CLOSING else OPEN), send_throws = (\<lambda>c. c = 3)\<rparr>
     [1, 2, 3, 4] 2 ''ice''
   = ([1, 2, 3, 4], [Log (Received (JStr ''ice-candidate'')), Sent 1 ''relayed'', Sent 4 ''relayed''], None)
   \<and> length [1, 4 :: nat] \<noteq> length [1, 2, 3, 4 :: nat] - 1"
  using ice_candidate_open_only [of
      "\<lparr>JSON_parse = (\<lambda>s. if s = ''ice'' then
          Inr (JObj [(''type'', JStr ''ice-candidate''), (''candidate'', JStr ''c1'')])
          else Inl SyntaxError),
      JSON_stringify = (\<lambda>v. ''relayed''), ToString = (\<lambda>v. []), URL_href = (\<lambda>s. None)\<rparr>"
      "''ice''" "JObj [(''type'', JStr ''ice-candidate''), (''candidate'', JStr ''c1'')]"
      "JStr ''c1''" "''relayed''" "[1, 4]" 2
      "\<lparr>readyState = (\<lambda>c. if c = 3 then CLOSING else OPEN), send_throws = (\<lambda>c. c = 3)\<rparr>"
      "[1, 2, 3, 4]"]
  by simp

theorem malformed_message_survives_witness:
  "malformed
     \<lparr>JSON_parse = (\<lambda>s. if s = ''null'' then Inr JNull else Inl SyntaxError),
      JSON_stringify = (\<lambda>v. ''invalid''), ToString = (\<lambda>v. []), URL_href = (\<lambda>s. None)\<rparr> ''{not json''
   \<and> on_message_v1
     \<lparr>JSON_parse = (\<lambda>s. if s = ''null'' then Inr JNull else Inl SyntaxError),
      JSON_stringify = (\<lambda>v. ''invalid''), ToString = (\<lambda>v. []), URL_href = (\<lambda>s. None)\<rparr>
     \<lparr>readyState = (\<lambda>c. OPEN), send_throws = (\<lambda>c. False)\<rparr> [1, 2] 1 ''{not json''
     = ([1, 2], [Log (HandlingError SyntaxError)], None)
   \<and> on_message_v2
     \<lparr>JSON_parse = (\<lambda>s. if s = ''null'' then Inr JNull else Inl SyntaxError),
      JSON_stringify = (\<lambda>v. ''invalid''), ToString = (\<lambda>v. []), URL_href = (\<lambda>s. None)\<rparr>
     \<lparr>readyState = (\<lambda>c. OPEN), send_throws = (\<lambda>c. False)\<rparr> [1, 2] 1 ''{not json''
     = ([1, 2], [Log (HandlingError SyntaxError), Sent 1 ''invalid''], None)"
proof -
  let ?P = "\<lparr>JSON_parse = (\<lambda>s. if s = ''null'' then Inr JNull else Inl SyntaxError),
      JSON_stringify = (\<lambda>v. ''invalid''), ToString = (\<lambda>v. []), URL_href = (\<lambda>s. None)\<rparr>"
  let ?S = "\<lparr>readyState = (\<lambda>c. OPEN), send_throws = (\<lambda>c. False)\<rparr>"
  have m: "malformed ?P ''{not json''" by (simp add: malformed_def)
  from malformed_message_survives [OF m, of ?S "[1, 2]" 1] m show ?thesis
    by (simp add: on_message_v1_def on_message_v2_def try_message_def ws_send_def)
qed



section \<open>Properties of the receiver\<close>

lemma get_prop_total: "get_prop m k = Inr v \<Longrightarrow> \<exists>v'. get_prop m k' = Inr v'"
  by (cases m) simp_all

lemma downloads_append: "downloads (as @ bs) = downloads as @ downloads bs"
  by (induction as rule: downloads.induct) simp_all

lemma receive_all_append:
  "receive_all P r (xs @ ys)
     = (case receive_all P r xs of (r', a) \<Rightarrow>
          (case receive_all P r' ys of (r'', a') \<Rightarrow> (r'', a @ a')))"
  by (induction xs arbitrary: r) (simp_all split: prod.splits)

lemma receive_below:
  assumes "get_prop (fileMetadata r) ''size'' = Inr (JNum (of_nat S))"
    and "receivedSize r + sum_list (map length cs) < S"
  shows "fst (receive_all P r (map BinaryData cs))
           = r\<lparr>receivedChunks := receivedChunks r @ cs,
               receivedSize := receivedSize r + sum_list (map length cs)\<rparr>
       \<and> downloads (snd (receive_all P r (map BinaryData cs))) = []"
  using assms
proof (induction cs arbitrary: r)
  case Nil
  show ?case by simp
next
  case (Cons c cs)
  let ?r = "r\<lparr>receivedChunks := receivedChunks r @ [c], receivedSize := receivedSize r + length c\<rparr>"
  from Cons.prems have ne: "receivedSize r + length c \<noteq> S" by simp
  with Cons.prems(1) have one: "receiveFile P r (BinaryData c)
      = (?r, [UpdateProgress (receivedSize r + length c) (JNum (of_nat S))], None)"
    by simp
  have "get_prop (fileMetadata ?r) ''size'' = Inr (JNum (of_nat S))"
    using Cons.prems(1) by simp
  moreover have "receivedSize ?r + sum_list (map length cs) < S"
    using Cons.prems(2) by simp
  ultimately have "fst (receive_all P ?r (map BinaryData cs))
           = ?r\<lparr>receivedChunks := receivedChunks ?r @ cs,
               receivedSize := receivedSize ?r + sum_list (map length cs)\<rparr>
       \<and> downloads (snd (receive_all P ?r (map BinaryData cs))) = []"
    by (rule Cons.IH)
  with one show ?case by (auto split: prod.splits simp: add.assoc simp del: receiveFile.simps)
qed

lemma receive_reaching:
  assumes "get_prop (fileMetadata r) ''size'' = Inr (JNum (of_nat S))"
    and "get_prop (fileMetadata r) ''fileType'' = Inr ft"
    and "receivedSize r + length c = S"
  shows "downloads (fst (snd (receiveFile P r (BinaryData c))))
           = [\<lparr>parts = receivedChunks r @ [c], blob_type = ft\<rparr>]"
proof -
  from assms(1) obtain n where "get_prop (fileMetadata r) ''name'' = Inr n"
    using get_prop_total by blast
  with assms show ?thesis by simp
qed

text \<open>
  C5.  What the receiver does with a binary message that arrives before any metadata
  message: the chunk is appended and counted, then the read of \<^verbatim>\<open>fileMetadata.size\<close>
  from \<^verbatim>\<open>null\<close> raises a TypeError that leaves the handler; nothing is downloaded.
\<close>

theorem binary_before_metadata_raises:
  "receiveFile P initial_receiver (BinaryData b)
     = (\<lparr>receivedSize = length b, receivedChunks = [b], fileMetadata = JNull\<rparr>, [], Some TypeError)"
  by (simp add: initial_receiver_def)

text \<open>
  C2, as stated, fails for chunk sequences in which the running total equals the declared
  size at more than one chunk or at none: after a five-byte chunk that completes a
  five-byte file, an empty chunk completes it a second time; and for a declared size of
  zero and no chunk at all, nothing completes.
\<close>

theorem completion_count_counterexample:
  "sum_list (map length [[1, 2, 3, 4, 5], [] :: 8 word list]) = 5
   \<and> length (downloads (snd (receive_all (table_platform [(''m5'', JObj [(''size'', JNum 5)])])
        initial_receiver [StringData ''m5'', BinaryData [1, 2, 3, 4, 5], BinaryData []]))) = 2
   \<and> sum_list (map length ([] :: 8 word list list)) = 0
   \<and> length (downloads (snd (receive_all (table_platform [(''m0'', JObj [(''size'', JNum 0)])])
        initial_receiver (StringData ''m0'' # map BinaryData [])))) = 0"
  by (simp add: table_platform_def initial_receiver_def)

lemma sum_length_take: "sum_list (map length (take k xs)) \<le> sum_list (map length xs)"
proof -
  have "sum_list (map length (take k xs @ drop k xs))
      = sum_list (map length (take k xs)) + sum_list (map length (drop k xs))"
    unfolding map_append sum_list_append ..
  then show ?thesis by simp
qed

text \<open>
  C2, amended.  After a metadata message that declares the size \<open>S\<close>, for every non-empty
  sequence of binary chunks whose lengths sum to \<open>S\<close> and that is a single chunk or ends
  with a non-empty chunk, the receiver completes exactly once, with the chunks in order as
  the parts of the artifact, its declared type, and \<open>S\<close> bytes; no completion happens after
  any shorter initial part of the sequence.
\<close>

theorem completion_once:
  assumes "JSON_parse P s = Inr m"
    and "get_prop m ''size'' = Inr (JNum (of_nat S))"
    and "get_prop m ''fileType'' = Inr ft"
    and "sum_list (map length chunks) = S"
    and "chunks \<noteq> []"
    and "length chunks = 1 \<or> last chunks \<noteq> []"
  shows "downloads (snd (receive_all P r (StringData s # map BinaryData chunks)))
           = [\<lparr>parts = chunks, blob_type = ft\<rparr>]
       \<and> blob_size \<lparr>parts = chunks, blob_type = ft\<rparr> = S
       \<and> (\<forall>k<length chunks.
            downloads (snd (receive_all P r (StringData s # map BinaryData (take k chunks)))) = [])"
proof -
  let ?r0 = "\<lparr>receivedSize = 0, receivedChunks = [], fileMetadata = m\<rparr>"
  from assms(5) obtain init c where split: "chunks = init @ [c]"
    by (cases chunks rule: rev_cases) auto
  from assms(2) obtain n where name: "get_prop m ''name'' = Inr n"
    using get_prop_total by blast
  with assms(1) have meta: "receiveFile P r (StringData s)
      = (?r0, [ShowProgress, ShowStatus (Receiving (ToString P n))], None)"
    by simp
  from assms(4) split have total: "sum_list (map length init) + length c = S" by simp
  from assms(6) split have shape: "init = [] \<or> c \<noteq> []" by simp
  have size: "get_prop (fileMetadata ?r0) ''size'' = Inr (JNum (of_nat S))"
    using assms(2) by simp
  have part: "fst (receive_all P ?r0 (map BinaryData (take k init)))
           = ?r0\<lparr>receivedChunks := take k init, receivedSize := sum_list (map length (take k init))\<rparr>
       \<and> downloads (snd (receive_all P ?r0 (map BinaryData (take k init)))) = []" for k
  proof (cases "init = []")
    case True
    then show ?thesis by simp
  next
    case False
    with shape have "c \<noteq> []" by simp
    with total have "sum_list (map length init) < S" by auto
    with sum_length_take [of k init]
    have "receivedSize ?r0 + sum_list (map length (take k init)) < S" by simp
    with size show ?thesis using receive_below [of ?r0 S "take k init" P] by simp
  qed
  from part [of "length init"]
  have before: "fst (receive_all P ?r0 (map BinaryData init))
           = ?r0\<lparr>receivedChunks := init, receivedSize := sum_list (map length init)\<rparr>
       \<and> downloads (snd (receive_all P ?r0 (map BinaryData init))) = []"
    by simp
  let ?r1 = "?r0\<lparr>receivedChunks := init, receivedSize := sum_list (map length init)\<rparr>"
  have "downloads (fst (snd (receiveFile P ?r1 (BinaryData c))))
           = [\<lparr>parts = receivedChunks ?r1 @ [c], blob_type = ft\<rparr>]"
    using assms(2,3) total by (intro receive_reaching [where S = S]) simp_all
  then have at_last: "downloads (fst (snd (receiveFile P ?r1 (BinaryData c))))
           = [\<lparr>parts = chunks, blob_type = ft\<rparr>]"
    using split by simp
  have "receive_all P ?r0 (map BinaryData chunks)
      = (case receive_all P ?r0 (map BinaryData init) of (r', a) \<Rightarrow>
          (case receive_all P r' [BinaryData c] of (r'', a') \<Rightarrow> (r'', a @ a')))"
    using receive_all_append [of P ?r0 "map BinaryData init" "[BinaryData c]"] split
    by simp
  with before at_last have "downloads (snd (receive_all P ?r0 (map BinaryData chunks)))
      = [\<lparr>parts = chunks, blob_type = ft\<rparr>]"
    by (auto simp: downloads_append split: prod.splits simp del: receiveFile.simps)
  with meta
  have fires: "downloads (snd (receive_all P r (StringData s # map BinaryData chunks)))
           = [\<lparr>parts = chunks, blob_type = ft\<rparr>]"
    by (auto simp: downloads_append split: prod.splits simp del: receiveFile.simps)
  have early: "downloads (snd (receive_all P r (StringData s # map BinaryData (take k chunks)))) = []"
    if "k < length chunks" for k
  proof -
    from that split have "take k chunks = take k init" by simp
    with meta part [of k] show ?thesis
      by (auto simp: downloads_append split: prod.splits simp del: receiveFile.simps)
  qed
  have "blob_size \<lparr>parts = chunks, blob_type = ft\<rparr> = S"
    using assms(4) by (simp add: blob_size_def length_concat)
  with fires early show ?thesis by simp
qed

theorem completion_once_witness:
  "downloads (snd (receive_all
       (table_platform [(''meta'', JObj [(''type'', JStr ''metadata''), (''name'', JStr ''a.bin''),
                                         (''size'', JNum 5), (''fileType'', JStr ''text/plain'')])])
       initial_receiver [StringData ''meta'', BinaryData [1, 2, 3], BinaryData [4, 5]]))
     = [\<lparr>parts = [[1, 2, 3], [4, 5]], blob_type = JStr ''text/plain''\<rparr>]
   \<and> blob_size \<lparr>parts = [[1, 2, 3], [4, 5]], blob_type = JStr ''text/plain''\<rparr> = 5
   \<and> downloads (snd (receive_all
       (table_platform [(''meta'', JObj [(''type'', JStr ''metadata''), (''name'', JStr ''a.bin''),
                                         (''size'', JNum 5), (''fileType'', JStr ''text/plain'')])])
       initial_receiver [StringData ''meta'', BinaryData [1, 2, 3]])) = []"
  using completion_once [of
      "table_platform [(''meta'', JObj [(''type'', JStr ''metadata''), (''name'', JStr ''a.bin''),
                                         (''size'', JNum 5), (''fileType'', JStr ''text/plain'')])]"
      "''meta''"
      "JObj [(''type'', JStr ''metadata''), (''name'', JStr ''a.bin''),
             (''size'', JNum 5), (''fileType'', JStr ''text/plain'')]"
      5 "JStr ''text/plain''" "[[1, 2, 3], [4, 5]]" initial_receiver]
  by (simp add: table_platform_def)



section \<open>Properties of the sender\<close>












section \<open>Properties of the handshake\<close>

lemma handler_idle: "\<not> listener p \<Longrightarrow> foldl handler p evs = p"
  by (induction evs) (simp_all add: handler_def)

lemma handler_pending:
  "foldl handler \<lparr>resolved_at = None, listener = True, timer = True\<rparr> evs
     = (case find (\<lambda>ev. snd ev = Complete) evs of
          None \<Rightarrow> \<lparr>resolved_at = None, listener = True, timer = True\<rparr>
        | Some ev \<Rightarrow> \<lparr>resolved_at = Some (fst ev), listener = False, timer = True\<rparr>)"
proof (induction evs)
  case Nil
  show ?case by simp
next
  case (Cons ev evs)
  show ?case
  proof (cases "snd ev = Complete")
    case True
    then have "handler \<lparr>resolved_at = None, listener = True, timer = True\<rparr> ev
        = \<lparr>resolved_at = Some (fst ev), listener = False, timer = True\<rparr>"
      by (simp add: handler_def resolve_def)
    with True show ?thesis by (simp add: handler_idle)
  next
    case False
    then have "handler \<lparr>resolved_at = None, listener = True, timer = True\<rparr> ev
        = \<lparr>resolved_at = None, listener = True, timer = True\<rparr>"
      by (simp add: handler_def)
    with False Cons.IH show ?thesis by simp
  qed
qed

lemma find_early:
  "find Q (takeWhile (early timeout) changes) = Some ev \<Longrightarrow> fst ev < timeout"
proof -
  assume "find Q (takeWhile (early timeout) changes) = Some ev"
  then have "ev \<in> set (takeWhile (early timeout) changes)"
    by (auto simp: find_Some_iff)
  then have "early timeout ev" by (rule set_takeWhileD [THEN conjunct2])
  then show ?thesis by (simp add: early_def)
qed

text \<open>
  C8.  The promise of \<^verbatim>\<open>waitForIceGatheringComplete\<close> is always resolved, and the listener
  removed: at once when there is no connection object or gathering is already complete,
  else at the first change to \<^verbatim>\<open>complete\<close> that comes before the timer, else when the
  timer runs; never later than the timeout, which is 3000 ms by default.
\<close>

theorem ice_wait_resolves:
  "resolved_at (waitForIceGatheringComplete pc timeout changes)
     = Some (case pc of
               None \<Rightarrow> 0
             | Some g \<Rightarrow>
                 if g = Complete then 0
                 else (case find (\<lambda>ev. snd ev = Complete) (takeWhile (early timeout) changes) of
                         None \<Rightarrow> timeout
                       | Some ev \<Rightarrow> fst ev))
   \<and> \<not> listener (waitForIceGatheringComplete pc timeout changes)
   \<and> (\<forall>t. resolved_at (waitForIceGatheringComplete pc timeout changes) = Some t \<longrightarrow> t \<le> timeout)
   \<and> (\<forall>t. resolved_at (waitForIceGatheringComplete pc default_timeout changes) = Some t
          \<longrightarrow> t \<le> 3000)"
proof -
  have main: "resolved_at (waitForIceGatheringComplete pc d changes)
     = Some (case pc of
               None \<Rightarrow> 0
             | Some g \<Rightarrow>
                 if g = Complete then 0
                 else (case find (\<lambda>ev. snd ev = Complete) (takeWhile (early d) changes) of
                         None \<Rightarrow> d
                       | Some ev \<Rightarrow> fst ev))
     \<and> \<not> listener (waitForIceGatheringComplete pc d changes)" for d
  proof (cases "pc = None \<or> pc = Some Complete")
    case True
    then have "wait_start pc = \<lparr>resolved_at = Some 0, listener = False, timer = False\<rparr>"
      by (auto simp: wait_start_def)
    with True show ?thesis
      by (auto simp: waitForIceGatheringComplete_def handler_idle timer_callback_def)
  next
    case False
    then obtain g where g: "pc = Some g" "g \<noteq> Complete" by auto
    then have start: "wait_start pc = \<lparr>resolved_at = None, listener = True, timer = True\<rparr>"
      by (simp add: wait_start_def)
    show ?thesis
    proof (cases "find (\<lambda>ev. snd ev = Complete) (takeWhile (early d) changes)")
      case None
      with g start show ?thesis
        by (simp add: waitForIceGatheringComplete_def handler_pending handler_idle
              timer_callback_def resolve_def)
    next
      case (Some ev)
      with g start show ?thesis
        by (simp add: waitForIceGatheringComplete_def handler_pending handler_idle
              timer_callback_def resolve_def)
    qed
  qed
  have bound: "t \<le> d" if "resolved_at (waitForIceGatheringComplete pc d changes) = Some t" for t d
    using that main [of d] find_early [of "\<lambda>ev. snd ev = Complete" d changes]
    by (auto split: option.splits if_splits dest: less_imp_le)
  from main [of timeout] bound [of timeout] bound [of default_timeout] show ?thesis
    by (simp add: default_timeout_def)
qed

theorem ice_wait_resolves_witness:
  "resolved_at (waitForIceGatheringComplete (Some New) default_timeout
       [(40, Gathering), (900, Complete), (5000, Complete)]) = Some 900
   \<and> resolved_at (waitForIceGatheringComplete (Some New) default_timeout [(40, Gathering)]) = Some 3000
   \<and> (900 :: nat) \<le> 3000"
  using ice_wait_resolves [of "Some New" default_timeout "[(40, Gathering), (900, Complete), (5000, Complete)]"]
    ice_wait_resolves [of "Some New" default_timeout "[(40, Gathering)]"]
  by (simp add: default_timeout_def early_def)

lemma store_failure:
  "fetch (JSON_stringify P (JObj [(''token'', JStr tok)])) = Rejected e
     \<or> fetch (JSON_stringify P (JObj [(''token'', JStr tok)])) = Response False body
   \<Longrightarrow> \<exists>err. storeTokenAndGetShortUrl P origin fetch tok = Inl err"
  by (auto simp: storeTokenAndGetShortUrl_def)

lemma shorten_failure_fallback:
  assumes "JSON_parse P evt_data = Inr data"
    and "get_prop data ''type'' = Inr (JStr ''offer-created'') \<and> get_prop data ''offer'' = Inr created
       \<or> get_prop data ''type'' = Inr (JStr ''answer-created'') \<and> get_prop data ''answer'' = Inr created"
    and "token = JSON_stringify P created"
    and "fetch (JSON_stringify P (JObj [(''token'', JStr token)])) = Rejected e
       \<or> fetch (JSON_stringify P (JObj [(''token'', JStr token)])) = Response False body"
  shows "ws_onmessage P qr_raises origin fetch peerConnection evt_data
     = show_full_token P qr_raises token"
proof -
  from assms(4) obtain err where "storeTokenAndGetShortUrl P origin fetch token = Inl err"
    using store_failure by blast
  then have "present_token P qr_raises origin fetch for_offer created
     = show_full_token P qr_raises token" for for_offer
    unfolding assms(3) by (simp add: present_token_def)
  with assms(1,2) show ?thesis
    by (auto simp: ws_onmessage_def)
qed

lemma show_full_token_qr:
  "URL_href P token = Some href \<Longrightarrow> href \<noteq> token \<Longrightarrow>
   QRCode token 256 \<notin> set (fst (show_full_token P qr_raises token))"
  by (simp add: show_full_token_def generateQRCode_def)

lemma show_full_token_raises:
  "qr_raises (case URL_href P token of None \<Rightarrow> token | Some href \<Rightarrow> href) 256 \<Longrightarrow>
   show_full_token P qr_raises token = ([TokenInput token, ClearQRCode], Some (Error ''QRCode''))"
  by (simp add: show_full_token_def generateQRCode_def)

text \<open>
  C9.  What \<^verbatim>\<open>ws.onmessage\<close> does with an echoed offer when the request to \<^verbatim>\<open>/store\<close>
  is answered with a response that is not ok, on a page at \<^verbatim>\<open>https://host\<close> where the
  full token is the text \<^verbatim>\<open>full token\<close>: the token field gets the full token, but the
  QR code of size 256 is made of \<^verbatim>\<open>https://host/full%20token\<close>, the absolute URL that
  \<^verbatim>\<open>new URL(text, location.origin).href\<close> makes of the token, and not of the token; and
  when the QR code library raises on that text, the exception leaves the handler before
  any status is shown.
\<close>

theorem shorten_failure_qr_not_token:
  "ws_onmessage
     ((table_platform [(''echo'', JObj [(''type'', JStr ''offer-created''), (''offer'', JStr ''v=0'')]),
                       (''full token'', JStr ''v=0'')])
        \<lparr>URL_href := map_of [(''full token'', ''https://host/full%20token'')]\<rparr>)
     (\<lambda>text width. False) ''https://host'' (\<lambda>body. Response False (Inl SyntaxError)) False ''echo''
   = ([TokenInput ''full token'', ClearQRCode, QRCode ''https://host/full%20token'' 256,
       ShowStatus FailedToShorten], None)
   \<and> ws_onmessage
     ((table_platform [(''echo'', JObj [(''type'', JStr ''offer-created''), (''offer'', JStr ''v=0'')]),
                       (''full token'', JStr ''v=0'')])
        \<lparr>URL_href := map_of [(''full token'', ''https://host/full%20token'')]\<rparr>)
     (\<lambda>text width. True) ''https://host'' (\<lambda>body. Response False (Inl SyntaxError)) False ''echo''
   = ([TokenInput ''full token'', ClearQRCode], Some (Error ''QRCode''))"
  by (simp add: ws_onmessage_def present_token_def show_full_token_def generateQRCode_def
        storeTokenAndGetShortUrl_def table_platform_def)

end
